theory Spec2Isabelle
  imports Complex_Main
begin

section \<open>The effects engine of the virtual guitar amplifier\<close>

text \<open>
  A shallow embedding of \<^verbatim>\<open>src/src/effects.py\<close> (class \<^verbatim>\<open>GuitarAmpEffects\<close>).

  Samples and parameters are Python floats (IEEE binary64) in the source; here they are
  \<^typ>\<open>real\<close>: arithmetic is exact, there is no rounding, no overflow to infinity and no
  NaN. A one-dimensional numpy array of samples is a \<^typ>\<open>real list\<close>. Methods that only
  read \<^verbatim>\<open>self\<close> are functions of the engine record; \<^verbatim>\<open>apply_reverb\<close>, which mutates the
  delay line, returns the updated engine next to its output. Every exception the source
  can raise is a value \<open>Inl err\<close>.
\<close>

subsection \<open>Data model\<close>

datatype error = ValueError | IndexError | ZeroDivisionError

record engine =
  sample_rate :: int
  gain :: real
  distortion :: real
  bass :: real
  mid :: real
  treble :: real
  reverb_mix :: real
  reverb_buffer_size :: nat
  reverb_buffer :: "real list"
  reverb_index :: nat

text \<open>Python's \<^verbatim>\<open>int(x)\<close> on a float truncates towards zero.\<close>

definition py_int :: "real \<Rightarrow> int" where
  "py_int x = (if 0 \<le> x then \<lfloor>x\<rfloor> else \<lceil>x\<rceil>)"

text \<open>
  \<^verbatim>\<open>__init__\<close>: unity gain, every other control at zero, and a zeroed delay buffer of
  \<^verbatim>\<open>int(0.05 * sample_rate)\<close> samples with the cursor at 0. \<^verbatim>\<open>np.zeros\<close> raises
  ValueError on a negative size.
\<close>

definition init :: "int \<Rightarrow> error + engine" where
  "init sr =
     (let n = py_int (0.05 * real_of_int sr) in
      if n < 0 then Inl ValueError
      else Inr \<lparr> sample_rate = sr, gain = 1, distortion = 0, bass = 0, mid = 0, treble = 0,
                 reverb_mix = 0, reverb_buffer_size = nat n,
                 reverb_buffer = replicate (nat n) 0, reverb_index = 0 \<rparr>)"

text \<open>Sequencing of fallible steps: the first exception ends the computation.\<close>

definition and_then :: "error + 'a \<Rightarrow> ('a \<Rightarrow> error + 'b) \<Rightarrow> error + 'b" where
  "and_then r f = (case r of Inl err \<Rightarrow> Inl err | Inr v \<Rightarrow> f v)"

text \<open>Elementwise numpy arithmetic on arrays of one length.\<close>

definition vadd :: "real list \<Rightarrow> real list \<Rightarrow> real list" where
  "vadd xs ys = map2 (+) xs ys"

definition vsub :: "real list \<Rightarrow> real list \<Rightarrow> real list" where
  "vsub xs ys = map2 (-) xs ys"

definition vscale :: "real list \<Rightarrow> real \<Rightarrow> real list" where
  "vscale xs c = map (\<lambda>x. x * c) xs"

subsection \<open>Parameter store\<close>

text \<open>
  \<^verbatim>\<open>np.clip(a, a_min, a_max)\<close> is numpy's \<^verbatim>\<open>minimum(a_max, maximum(a, a_min))\<close>.
\<close>

definition clip :: "real \<Rightarrow> real \<Rightarrow> real \<Rightarrow> real" where
  "clip a a_min a_max = min a_max (max a a_min)"

text \<open>
  \<^verbatim>\<open>set_parameters(**kwargs)\<close>: the keyword arguments are a dictionary from names to
  values; the six \<^verbatim>\<open>if 'name' in kwargs\<close> tests run in the source's order, and a keyword
  with any other name is ignored.
\<close>

definition set_parameters :: "engine \<Rightarrow> (string \<rightharpoonup> real) \<Rightarrow> engine" where
  "set_parameters e kwargs =
     (let e1 = (case kwargs ''gain'' of Some v \<Rightarrow> e\<lparr>gain := clip v 0.1 5.0\<rparr> | None \<Rightarrow> e);
          e2 = (case kwargs ''distortion'' of Some v \<Rightarrow> e1\<lparr>distortion := clip v 0.0 1.0\<rparr>
                | None \<Rightarrow> e1);
          e3 = (case kwargs ''bass'' of Some v \<Rightarrow> e2\<lparr>bass := clip v (-1.0) 1.0\<rparr> | None \<Rightarrow> e2);
          e4 = (case kwargs ''mid'' of Some v \<Rightarrow> e3\<lparr>mid := clip v (-1.0) 1.0\<rparr> | None \<Rightarrow> e3);
          e5 = (case kwargs ''treble'' of Some v \<Rightarrow> e4\<lparr>treble := clip v (-1.0) 1.0\<rparr>
                | None \<Rightarrow> e4);
          e6 = (case kwargs ''reverb_mix'' of Some v \<Rightarrow> e5\<lparr>reverb_mix := clip v 0.0 1.0\<rparr>
                | None \<Rightarrow> e5)
      in e6)"

subsection \<open>Gain and distortion\<close>

definition apply_gain :: "engine \<Rightarrow> real list \<Rightarrow> real list" where
  "apply_gain e audio = vscale audio (gain e)"

definition apply_distortion :: "engine \<Rightarrow> real list \<Rightarrow> real list" where
  "apply_distortion e audio =
     (if distortion e = 0.0 then audio
      else
        let dist_factor = 1.0 + distortion e * 49.0;
            audio' = vscale audio dist_factor;
            distorted = map tanh audio'
        in map (\<lambda>x. x / (1.0 + distortion e * 0.5)) distorted)"

text \<open>
  The samples are binary64 numbers, and every operation of the stage rounds its result.
  \<open>b64\<close> is that rounding: to the nearest number with a 53-bit significand, ties to
  the even significand (the exponent is not limited here: overflow and gradual underflow are
  outside \<open>b64\<close>). \<open>apply_distortion_fp rnd th\<close> is the same stage with the rounding
  \<open>rnd\<close> after each multiplication, addition and division, and with \<open>th\<close> for
  \<^verbatim>\<open>np.tanh\<close>; with no rounding and the exact \<open>tanh\<close> it is \<open>apply_distortion\<close>.
\<close>

definition round_even :: "real \<Rightarrow> int" where
  "round_even x =
     (let f = \<lfloor>x\<rfloor> in
      if x - of_int f < 1 / 2 then f
      else if 1 / 2 < x - of_int f then f + 1
      else if even f then f else f + 1)"

definition b64 :: "real \<Rightarrow> real" where
  "b64 x =
     (if x = 0 then 0
      else
        let u = 2 powr (of_int \<lfloor>log 2 \<bar>x\<bar>\<rfloor> - 52)
        in sgn x * (u * of_int (round_even (\<bar>x\<bar> / u))))"

definition apply_distortion_fp :: "(real \<Rightarrow> real) \<Rightarrow> (real \<Rightarrow> real) \<Rightarrow> engine \<Rightarrow> real list \<Rightarrow> real list" where
  "apply_distortion_fp rnd th e audio =
     (if distortion e = 0.0 then audio
      else
        let dist_factor = rnd (1.0 + rnd (distortion e * 49.0));
            audio' = map (\<lambda>x. rnd (x * dist_factor)) audio;
            distorted = map th audio';
            level = rnd (1.0 + rnd (distortion e * 0.5))
        in map (\<lambda>x. rnd (x / level)) distorted)"

subsection \<open>Tone control\<close>

text \<open>
  \<^verbatim>\<open>scipy.signal.butter(N, Wn, btype, fs=..., output='sos')\<close> is a library call: the
  filter design is a parameter of the model. It returns the second-order sections of the
  filter (one for the low-pass and the high-pass of order 2, two for the band-pass), or
  raises ValueError (a critical frequency not below \<open>fs / 2\<close>). A section is a row
  \<open>b0 b1 b2 1 a1 a2\<close> of the array; the normalised \<open>a0 = 1\<close> is not stored.
\<close>

datatype btype = Low | High | Band

datatype sos_section = Section real real real real real

type_synonym zstate = "real \<times> real"

type_synonym butter_design = "nat \<Rightarrow> real list \<Rightarrow> btype \<Rightarrow> int \<Rightarrow> error + sos_section list"

text \<open>
  \<^verbatim>\<open>scipy.signal.sosfilt(sos, x)\<close>: the cascade of the sections, each in direct form II
  transposed with two words of delay memory. Per sample and per section:
  \<^verbatim>\<open>y = b0*x + z0; z0 = b1*x - a1*y + z1; z1 = b2*x - a2*y\<close>, the output of one section
  feeding the next. Called without \<^verbatim>\<open>zi\<close>, as the source does, the delay memory starts at
  zero, and the final memory is not returned. On a block of length zero the call raises
  ValueError (numpy refuses the reshape of the input to rows of length zero).
\<close>

fun biquad :: "sos_section \<Rightarrow> zstate \<Rightarrow> real \<Rightarrow> real \<times> zstate" where
  "biquad (Section b0 b1 b2 a1 a2) (z0, z1) x =
     (let y = b0 * x + z0 in (y, (b1 * x - a1 * y + z1, b2 * x - a2 * y)))"

fun sos_sample :: "(sos_section \<times> zstate) list \<Rightarrow> real \<Rightarrow> real \<times> (sos_section \<times> zstate) list" where
  "sos_sample [] x = (x, [])"
| "sos_sample ((s, z) # rest) x =
     (case biquad s z x of (y, z') \<Rightarrow>
        (case sos_sample rest y of (r, rest') \<Rightarrow> (r, (s, z') # rest')))"

fun sos_run :: "(sos_section \<times> zstate) list \<Rightarrow> real list \<Rightarrow> real list \<times> (sos_section \<times> zstate) list" where
  "sos_run f [] = ([], f)"
| "sos_run f (x # xs) =
     (case sos_sample f x of (y, f') \<Rightarrow>
        (case sos_run f' xs of (ys, f'') \<Rightarrow> (y # ys, f'')))"

definition at_rest :: "sos_section list \<Rightarrow> (sos_section \<times> zstate) list" where
  "at_rest sos = map (\<lambda>s. (s, (0, 0))) sos"

definition sosfilt :: "sos_section list \<Rightarrow> real list \<Rightarrow> error + real list" where
  "sosfilt sos x = (if x = [] then Inl ValueError else Inr (fst (sos_run (at_rest sos) x)))"

text \<open>The three bands of \<^verbatim>\<open>apply_eq\<close>, in the source's order: bass, treble, mid.\<close>

definition bass_band :: "butter_design \<Rightarrow> engine \<Rightarrow> real list \<Rightarrow> real list \<Rightarrow> error + real list" where
  "bass_band butter e audio result =
     (if bass e \<noteq> 0.0 then
        let bass_gain = 1.0 + bass e in
        and_then (butter 2 [100] Low (sample_rate e)) (\<lambda>sos_bass.
        and_then (sosfilt sos_bass audio) (\<lambda>bass_signal.
          Inr (vadd result (vscale (vsub bass_signal audio) bass_gain))))
      else Inr result)"

definition treble_band :: "butter_design \<Rightarrow> engine \<Rightarrow> real list \<Rightarrow> real list \<Rightarrow> error + real list" where
  "treble_band butter e audio result =
     (if treble e \<noteq> 0.0 then
        let treble_gain = 1.0 + treble e in
        and_then (butter 2 [3000] High (sample_rate e)) (\<lambda>sos_treble.
        and_then (sosfilt sos_treble audio) (\<lambda>treble_signal.
          Inr (vadd result (vscale (vsub treble_signal audio) treble_gain))))
      else Inr result)"

definition mid_band :: "butter_design \<Rightarrow> engine \<Rightarrow> real list \<Rightarrow> real list \<Rightarrow> error + real list" where
  "mid_band butter e audio result =
     (if mid e \<noteq> 0.0 then
        let mid_gain = 1.0 + mid e in
        and_then (butter 2 [400, 1600] Band (sample_rate e)) (\<lambda>sos_mid.
        and_then (sosfilt sos_mid audio) (\<lambda>mid_signal.
          Inr (vadd result (vscale (vscale mid_signal mid_gain) 0.5))))
      else Inr result)"

definition apply_eq :: "butter_design \<Rightarrow> engine \<Rightarrow> real list \<Rightarrow> error + real list" where
  "apply_eq butter e audio =
     and_then (bass_band butter e audio audio) (\<lambda>result.
     and_then (treble_band butter e audio result) (\<lambda>result.
     mid_band butter e audio result))"


subsection \<open>Reverb\<close>

text \<open>
  The loop of \<^verbatim>\<open>apply_reverb\<close>, one sample per step. Reading the buffer at an index that
  is not below its length raises IndexError; the modulus by a zero size raises
  ZeroDivisionError.
\<close>

fun reverb_loop :: "engine \<Rightarrow> real list \<Rightarrow> error + (engine \<times> real list)" where
  "reverb_loop e [] = Inr (e, [])"
| "reverb_loop e (x # xs) =
     (if length (reverb_buffer e) \<le> reverb_index e then Inl IndexError
      else
        let delayed = reverb_buffer e ! reverb_index e;
            buf = (reverb_buffer e)[reverb_index e := x + delayed * 0.3];
            y = x * (1.0 - reverb_mix e) + delayed * reverb_mix e
        in if reverb_buffer_size e = 0 then Inl ZeroDivisionError
           else
             and_then
               (reverb_loop
                  (e\<lparr>reverb_buffer := buf,
                     reverb_index := (reverb_index e + 1) mod reverb_buffer_size e\<rparr>) xs)
               (\<lambda>(e', ys). Inr (e', y # ys)))"

definition apply_reverb :: "engine \<Rightarrow> real list \<Rightarrow> error + (engine \<times> real list)" where
  "apply_reverb e audio = (if reverb_mix e = 0.0 then Inr (e, audio) else reverb_loop e audio)"

subsection \<open>The chain\<close>

definition process :: "butter_design \<Rightarrow> engine \<Rightarrow> real list \<Rightarrow> error + (engine \<times> real list)" where
  "process butter e audio =
     (let processed = apply_gain e audio;
          processed = apply_distortion e processed
      in and_then (apply_eq butter e processed) (\<lambda>processed.
         apply_reverb e processed))"

subsection \<open>Concrete engines\<close>

text \<open>
  The engine that \<^verbatim>\<open>GuitarAmpEffects(sample_rate=60)\<close> constructs: its delay line holds
  \<open>int(0.05 * 60) = 3\<close> samples. It is the engine of the worked examples below.
\<close>

definition amp_60 :: engine where
  "amp_60 = \<lparr> sample_rate = 60, gain = 1, distortion = 0, bass = 0, mid = 0, treble = 0,
       reverb_mix = 0, reverb_buffer_size = 3, reverb_buffer = [0, 0, 0],
       reverb_index = 0 \<rparr>"

text \<open>
  The engine that \<^verbatim>\<open>GuitarAmpEffects()\<close> constructs at the default rate of 44100 Hz, and
  a Butterworth design for that rate: the sections of the 100 Hz low-pass, the 3000 Hz
  high-pass and the 400--1600 Hz band-pass of order 2 by the bilinear transform, with the
  coefficients rounded to ten decimal places.
\<close>

definition amp_44100 :: engine where
  "amp_44100 = \<lparr> sample_rate = 44100, gain = 1, distortion = 0, bass = 0, mid = 0, treble = 0,
       reverb_mix = 0, reverb_buffer_size = 2205, reverb_buffer = replicate 2205 0,
       reverb_index = 0 \<rparr>"

definition butter_44100 :: butter_design where
  "butter_44100 N Wn bt fs =
     (case bt of
        Low \<Rightarrow> Inr [Section 0.0000502414 0.0001004828 0.0000502414 (- 1.9798515425) 0.9800525082]
      | High \<Rightarrow> Inr [Section 0.7385387094 (- 1.4770774188) 0.7385387094 (- 1.4075053439) 0.5466494937]
      | Band \<Rightarrow> Inr [Section 0.0065071374 0.0130142748 0.0065071374 (- 1.7962311178) 0.8330542604,
                     Section 1 (- 2) 1 (- 1.9385136885) 0.9425862553])"

subsection \<open>The delay-line invariant\<close>

text \<open>
  The cursor is inside the buffer, and the buffer has the size the engine recorded at
  construction.
\<close>

definition delay_ok :: "engine \<Rightarrow> bool" where
  "delay_ok e \<longleftrightarrow> reverb_index e < reverb_buffer_size e
                 \<and> length (reverb_buffer e) = reverb_buffer_size e"

section \<open>Properties\<close>

subsection \<open>Basic facts\<close>

lemma length_vscale [simp]: "length (vscale xs c) = length xs"
  by (simp add: vscale_def)

lemma nth_vscale [simp]: "i < length xs \<Longrightarrow> vscale xs c ! i = xs ! i * c"
  by (simp add: vscale_def)

lemma length_apply_gain [simp]: "length (apply_gain e B) = length B"
  by (simp add: apply_gain_def)

lemma length_apply_distortion [simp]: "length (apply_distortion e B) = length B"
  by (simp add: apply_distortion_def Let_def)

lemma and_then_Inr [simp]: "and_then (Inr v) f = f v"
  by (simp add: and_then_def)

lemma and_then_Inl [simp]: "and_then (Inl err) f = Inl err"
  by (simp add: and_then_def)

lemma and_then_eq_Inr: "and_then r f = Inr w \<longleftrightarrow> (\<exists>v. r = Inr v \<and> f v = Inr w)"
  by (cases r) simp_all

lemma init_60: "init 60 = Inr amp_60"
  by (simp add: init_def py_int_def amp_60_def numeral_3_eq_3)

lemma init_44100: "init 44100 = Inr amp_44100"
  by (simp add: init_def py_int_def amp_44100_def)

subsection \<open>Parameter store\<close>

lemma clip_eq: "a_min \<le> a_max \<Longrightarrow> clip v a_min a_max = max (min v a_max) a_min"
  by (simp add: clip_def min_def max_def)

lemma sp_gain:
  "gain (set_parameters e kw) = (case kw ''gain'' of Some v \<Rightarrow> max (min v 5) 0.1 | None \<Rightarrow> gain e)"
  by (simp add: set_parameters_def clip_eq Let_def split: option.split)

lemma sp_distortion:
  "distortion (set_parameters e kw) =
     (case kw ''distortion'' of Some v \<Rightarrow> max (min v 1) 0 | None \<Rightarrow> distortion e)"
  by (simp add: set_parameters_def clip_eq Let_def split: option.split)

lemma sp_bass:
  "bass (set_parameters e kw) = (case kw ''bass'' of Some v \<Rightarrow> max (min v 1) (- 1) | None \<Rightarrow> bass e)"
  by (simp add: set_parameters_def clip_eq Let_def split: option.split)

lemma sp_mid:
  "mid (set_parameters e kw) = (case kw ''mid'' of Some v \<Rightarrow> max (min v 1) (- 1) | None \<Rightarrow> mid e)"
  by (simp add: set_parameters_def clip_eq Let_def split: option.split)

lemma sp_treble:
  "treble (set_parameters e kw) =
     (case kw ''treble'' of Some v \<Rightarrow> max (min v 1) (- 1) | None \<Rightarrow> treble e)"
  by (simp add: set_parameters_def clip_eq Let_def split: option.split)

lemma sp_reverb_mix:
  "reverb_mix (set_parameters e kw) =
     (case kw ''reverb_mix'' of Some v \<Rightarrow> max (min v 1) 0 | None \<Rightarrow> reverb_mix e)"
  by (simp add: set_parameters_def clip_eq Let_def split: option.split)

lemma sp_frame:
  "sample_rate (set_parameters e kw) = sample_rate e"
  "reverb_buffer_size (set_parameters e kw) = reverb_buffer_size e"
  "reverb_buffer (set_parameters e kw) = reverb_buffer e"
  "reverb_index (set_parameters e kw) = reverb_index e"
  by (simp_all add: set_parameters_def Let_def split: option.split)

text \<open>
  C5. \<^verbatim>\<open>set_parameters\<close> with any dictionary of keyword values: each of the six fields
  that is present is stored as \<open>max (min value hi) lo\<close> for its range, each absent field
  keeps its value, and nothing else of the engine changes. The function is total on real
  values (no branch of the source raises on a number). In particular \<open>gain = 10\<close> stores
  5 and \<open>bass = -5\<close> stores \<open>-1\<close>.
\<close>

theorem set_parameters_contract:
  "gain (set_parameters e kw) = (case kw ''gain'' of Some v \<Rightarrow> max (min v 5) 0.1 | None \<Rightarrow> gain e)
   \<and> distortion (set_parameters e kw) =
       (case kw ''distortion'' of Some v \<Rightarrow> max (min v 1) 0 | None \<Rightarrow> distortion e)
   \<and> bass (set_parameters e kw) = (case kw ''bass'' of Some v \<Rightarrow> max (min v 1) (- 1) | None \<Rightarrow> bass e)
   \<and> mid (set_parameters e kw) = (case kw ''mid'' of Some v \<Rightarrow> max (min v 1) (- 1) | None \<Rightarrow> mid e)
   \<and> treble (set_parameters e kw) =
       (case kw ''treble'' of Some v \<Rightarrow> max (min v 1) (- 1) | None \<Rightarrow> treble e)
   \<and> reverb_mix (set_parameters e kw) =
       (case kw ''reverb_mix'' of Some v \<Rightarrow> max (min v 1) 0 | None \<Rightarrow> reverb_mix e)
   \<and> sample_rate (set_parameters e kw) = sample_rate e
   \<and> reverb_buffer_size (set_parameters e kw) = reverb_buffer_size e
   \<and> reverb_buffer (set_parameters e kw) = reverb_buffer e
   \<and> reverb_index (set_parameters e kw) = reverb_index e
   \<and> gain (set_parameters e [''gain'' \<mapsto> 10.0]) = 5.0
   \<and> bass (set_parameters e [''bass'' \<mapsto> - 5.0]) = - 1.0"
  unfolding sp_gain sp_distortion sp_bass sp_mid sp_treble sp_reverb_mix sp_frame
  by simp

subsection \<open>Gain\<close>

text \<open>
  C9. The gain stage multiplies every sample by the gain parameter and keeps the length
  of the block; its result depends on no field of the engine but \<open>gain\<close>. It returns a
  block only: the engine is not part of its result, so it writes no state.
\<close>

theorem apply_gain_linear:
  "length (apply_gain e B) = length B
   \<and> (\<forall>i < length B. apply_gain e B ! i = B ! i * gain e)
   \<and> (\<forall>e'. gain e' = gain e \<longrightarrow> apply_gain e' B = apply_gain e B)"
  by (simp add: apply_gain_def)

theorem apply_gain_linear_witness:
  "(1::nat) < length [0.1, 0.2 :: real]
   \<and> apply_gain (amp_60\<lparr>gain := 2\<rparr>) [0.1, 0.2] ! 1 = 0.2 * 2
   \<and> apply_gain (amp_60\<lparr>gain := 2, bass := 1\<rparr>) [0.1, 0.2]
       = apply_gain (amp_60\<lparr>gain := 2\<rparr>) [0.1, 0.2]"
proof -
  let ?e = "amp_60\<lparr>gain := 2\<rparr>" and ?B = "[0.1, 0.2 :: real]"
  note h = apply_gain_linear [of ?e ?B]
  have i: "(1::nat) < length ?B" by simp
  from h have "\<forall>i < length ?B. apply_gain ?e ?B ! i = ?B ! i * gain ?e" by blast
  with i have a: "apply_gain ?e ?B ! 1 = ?B ! 1 * gain ?e" by blast
  from h have "\<forall>e'. gain e' = gain ?e \<longrightarrow> apply_gain e' ?B = apply_gain ?e ?B" by blast
  then have "gain (amp_60\<lparr>gain := 2, bass := 1\<rparr>) = gain ?e
      \<longrightarrow> apply_gain (amp_60\<lparr>gain := 2, bass := 1\<rparr>) ?B = apply_gain ?e ?B"
    by (rule spec)
  moreover have "gain (amp_60\<lparr>gain := 2, bass := 1\<rparr>) = gain ?e" by simp
  ultimately have b: "apply_gain (amp_60\<lparr>gain := 2, bass := 1\<rparr>) ?B = apply_gain ?e ?B"
    by (rule mp)
  from a have a': "apply_gain ?e ?B ! 1 = 0.2 * 2" by simp
  from i a' b show ?thesis by blast
qed

subsection \<open>Distortion\<close>

lemma distortion_sample:
  assumes "0 < d"
  shows "- 1 < tanh (x :: real) / (1 + d * 0.5) \<and> tanh x / (1 + d * 0.5) < 1"
proof -
  let ?c = "1 + d * 0.5"
  have c: "0 < ?c" "1 \<le> ?c" using assms by simp_all
  have t: "- 1 < tanh x" "tanh x < 1" by (rule tanh_real_gt_neg1, rule tanh_real_lt_1)
  have "tanh x < 1 * ?c" using t(2) c(2) by simp
  then have u: "tanh x / ?c < 1" using c(1) by (simp only: pos_divide_less_eq)
  have "(- 1) * ?c < tanh x" using t(1) c(2) by simp
  then have l: "- 1 < tanh x / ?c" using c(1) by (simp only: pos_less_divide_eq)
  from l u show ?thesis by blast
qed

lemma apply_distortion_exact_bound:
  "0 < distortion e \<Longrightarrow> y \<in> set (apply_distortion e B) \<Longrightarrow> - 1 < y \<and> y < 1"
  using distortion_sample [of "distortion e"]
  by (auto simp: apply_distortion_def vscale_def Let_def)

text \<open>Rounding to binary64: the facts about \<open>b64\<close> that the stage needs.\<close>

lemma apply_distortion_fp_exact: "apply_distortion_fp (\<lambda>x. x) tanh e B = apply_distortion e B"
  by (simp add: apply_distortion_fp_def apply_distortion_def vscale_def Let_def)



lemma round_even_near:
  assumes "\<bar>x - of_int k\<bar> < 1 / 2"
  shows "round_even x = k"
proof (cases "of_int k \<le> x")
  case True
  with assms have "\<lfloor>x\<rfloor> = k" by (intro floor_unique) (auto simp: abs_less_iff)
  with assms True show ?thesis by (simp add: round_even_def Let_def abs_less_iff)
next
  case False
  with assms have f: "\<lfloor>x\<rfloor> = k - 1" by (intro floor_unique) (auto simp: abs_less_iff)
  with assms False have "1 / 2 < x - of_int \<lfloor>x\<rfloor>" by (simp add: abs_less_iff)
  with f show ?thesis by (simp add: round_even_def Let_def)
qed



lemma b64_pos_form:
  assumes x: "0 < x" and lo: "2 powr of_int e \<le> x" and hi: "x < 2 powr (of_int e + 1)"
  shows "b64 x = 2 powr (of_int e - 52) * of_int (round_even (x / 2 powr (of_int e - 52)))"
proof -
  from x lo hi have "\<lfloor>log 2 x\<rfloor> = e" by (simp add: floor_log_eq_powr_iff)
  with x show ?thesis by (simp add: b64_def Let_def)
qed










lemma b64_one_plus_tiny:
  assumes "0 \<le> t" and "t \<le> 2 powr (- 54)"
  shows "b64 (1 + t) = 1"
proof -
  have s: "(2::real) powr (- 54) = 1 / 2 ^ 54" by (simp add: powr_minus_divide)
  with assms have t: "t \<le> 1 / 2 ^ 54" by simp
  have x: "0 < 1 + t" using assms by simp
  have lo: "2 powr of_int 0 \<le> 1 + t" using assms by simp
  have hi: "1 + t < 2 powr (of_int 0 + 1)" using t by simp
  have u: "(2::real) powr (of_int 0 - 52) = 1 / 2 ^ 52" by (simp add: powr_minus_divide)
  have "\<bar>(1 + t) / (1 / 2 ^ 52) - of_int (2 ^ 52)\<bar> = t * 2 ^ 52" using assms by simp
  also have "\<dots> \<le> 1 / 2 ^ 54 * 2 ^ 52" using t by (intro mult_right_mono) simp_all
  also have "\<dots> < 1 / 2" by simp
  finally have "round_even ((1 + t) / (1 / 2 ^ 52)) = 2 ^ 52" by (rule round_even_near)
  then show ?thesis unfolding b64_pos_form [OF x lo hi] u by simp
qed




lemma b64_one [simp]: "b64 1 = 1"
  using b64_one_plus_tiny [of 0] by simp










subsection \<open>Reverb: the loop returns and keeps the cursor inside the buffer\<close>

lemma reverb_loop_index:
  "reverb_loop e xs = Inr (e', ys) \<Longrightarrow> reverb_index e < reverb_buffer_size e
   \<Longrightarrow> reverb_index e' < reverb_buffer_size e' \<and> reverb_buffer_size e' = reverb_buffer_size e"
proof (induction xs arbitrary: e e' ys)
  case Nil
  then show ?case by simp
next
  case (Cons x xs)
  from Cons.prems show ?case
    by (auto simp: Let_def and_then_eq_Inr split: if_splits dest!: Cons.IH)
qed

lemma reverb_loop_returns:
  "delay_ok e \<Longrightarrow> \<exists>e' ys. reverb_loop e xs = Inr (e', ys) \<and> delay_ok e'
      \<and> length ys = length xs
      \<and> e' = e\<lparr>reverb_buffer := reverb_buffer e', reverb_index := reverb_index e'\<rparr>"
proof (induction xs arbitrary: e)
  case Nil
  then show ?case by simp
next
  case (Cons x xs)
  let ?e1 = "e\<lparr>reverb_buffer := (reverb_buffer e)[reverb_index e :=
                  x + reverb_buffer e ! reverb_index e * 0.3],
               reverb_index := (reverb_index e + 1) mod reverb_buffer_size e\<rparr>"
  from Cons.prems have ok: "delay_ok ?e1" by (simp add: delay_ok_def)
  from Cons.IH [OF ok] obtain e' ys where
    r: "reverb_loop ?e1 xs = Inr (e', ys)" and k: "delay_ok e'" and l: "length ys = length xs"
    and f: "e' = ?e1\<lparr>reverb_buffer := reverb_buffer e', reverb_index := reverb_index e'\<rparr>"
    by blast
  from f have f': "e' = e\<lparr>reverb_buffer := reverb_buffer e', reverb_index := reverb_index e'\<rparr>"
    by simp
  from Cons.prems r k l f' show ?case
    by (simp add: Let_def delay_ok_def)
qed

subsection \<open>Tone control with every band at zero\<close>

lemma apply_eq_neutral:
  "bass e = 0 \<Longrightarrow> mid e = 0 \<Longrightarrow> treble e = 0 \<Longrightarrow> apply_eq butter e B = Inr B"
  by (simp add: apply_eq_def bass_band_def treble_band_def mid_band_def)

text \<open>
  C3. Identity bypass: with distortion at zero \<^verbatim>\<open>apply_distortion\<close> returns the block
  unchanged; with the reverb mix at zero \<^verbatim>\<open>apply_reverb\<close> returns the block unchanged (and
  the engine with it); with bass, mid and treble all at zero \<^verbatim>\<open>apply_eq\<close> returns the
  block unchanged, without asking for any filter design.
\<close>

theorem identity_bypass:
  "(distortion e = 0 \<longrightarrow> apply_distortion e B = B)
   \<and> (reverb_mix e = 0 \<longrightarrow> apply_reverb e B = Inr (e, B))
   \<and> (bass e = 0 \<and> mid e = 0 \<and> treble e = 0 \<longrightarrow> apply_eq butter e B = Inr B)"
  by (simp add: apply_distortion_def apply_reverb_def apply_eq_neutral)

theorem identity_bypass_witness:
  "distortion amp_60 = 0 \<and> apply_distortion amp_60 [0.5, 2] = [0.5, 2]
   \<and> reverb_mix amp_60 = 0 \<and> apply_reverb amp_60 [0.5, 2] = Inr (amp_60, [0.5, 2])
   \<and> bass amp_60 = 0 \<and> mid amp_60 = 0 \<and> treble amp_60 = 0
   \<and> apply_eq butter_44100 amp_60 [0.5, 2] = Inr [0.5, 2]"
proof -
  have p: "distortion amp_60 = 0" "reverb_mix amp_60 = 0" "bass amp_60 = 0" "mid amp_60 = 0"
    "treble amp_60 = 0"
    by (simp_all add: amp_60_def)
  note h = identity_bypass [of amp_60 "[0.5, 2]" butter_44100]
  from h p show ?thesis by blast
qed

subsection \<open>Reverb: bypass and cursor\<close>

lemma reverb_example:
  "apply_reverb (amp_60\<lparr>reverb_mix := 0.5\<rparr>) [1, 0, 0, 0]
     = Inr (amp_60\<lparr>reverb_mix := 0.5, reverb_buffer := [0.3, 0, 0], reverb_index := 1\<rparr>,
            [0.5, 0, 0, 0.5])"
  by (simp add: apply_reverb_def amp_60_def Let_def)

text \<open>
  C10. With the reverb mix at zero \<^verbatim>\<open>apply_reverb\<close> returns the engine it was given:
  nothing is written into the delay buffer and the cursor does not move. With a mix other
  than zero, on an engine whose cursor is below the buffer size and whose buffer has that
  size, the call returns and the cursor is again below the (unchanged) buffer size; and
  whenever a call that started with the cursor below the size returns, the cursor is below
  the size.
\<close>

theorem reverb_bypass_and_cursor:
  "(reverb_mix e = 0 \<longrightarrow> apply_reverb e B = Inr (e, B))
   \<and> (reverb_mix e \<noteq> 0 \<and> reverb_index e < reverb_buffer_size e
        \<and> length (reverb_buffer e) = reverb_buffer_size e
      \<longrightarrow> (\<exists>e' out. apply_reverb e B = Inr (e', out)
             \<and> reverb_index e' < reverb_buffer_size e'
             \<and> reverb_buffer_size e' = reverb_buffer_size e
             \<and> length (reverb_buffer e') = reverb_buffer_size e'))
   \<and> (reverb_mix e \<noteq> 0 \<and> reverb_index e < reverb_buffer_size e
      \<longrightarrow> (\<forall>e' out. apply_reverb e B = Inr (e', out)
             \<longrightarrow> reverb_index e' < reverb_buffer_size e'))"
proof (intro conjI impI allI)
  assume "reverb_mix e = 0"
  then show "apply_reverb e B = Inr (e, B)" by (simp add: apply_reverb_def)
next
  assume a: "reverb_mix e \<noteq> 0 \<and> reverb_index e < reverb_buffer_size e
        \<and> length (reverb_buffer e) = reverb_buffer_size e"
  then have "delay_ok e" by (simp add: delay_ok_def)
  from reverb_loop_returns [OF this, of B] obtain e' ys where
    r: "reverb_loop e B = Inr (e', ys)" and k: "delay_ok e'"
    and f: "e' = e\<lparr>reverb_buffer := reverb_buffer e', reverb_index := reverb_index e'\<rparr>"
    by blast
  from f have "reverb_buffer_size e' = reverb_buffer_size e"
    by (metis engine.select_convs(8) engine.surjective engine.update_convs(9,10))
  with a r k show "\<exists>e' out. apply_reverb e B = Inr (e', out)
             \<and> reverb_index e' < reverb_buffer_size e'
             \<and> reverb_buffer_size e' = reverb_buffer_size e
             \<and> length (reverb_buffer e') = reverb_buffer_size e'"
    by (simp add: apply_reverb_def delay_ok_def)
next
  fix e' out
  assume "reverb_mix e \<noteq> 0 \<and> reverb_index e < reverb_buffer_size e"
    and "apply_reverb e B = Inr (e', out)"
  then show "reverb_index e' < reverb_buffer_size e'"
    using reverb_loop_index [of e B e' out] by (simp add: apply_reverb_def)
qed

theorem reverb_bypass_and_cursor_witness:
  "reverb_mix amp_60 = 0 \<and> apply_reverb amp_60 [1, 0, 0, 0] = Inr (amp_60, [1, 0, 0, 0])
   \<and> reverb_mix (amp_60\<lparr>reverb_mix := 0.5\<rparr>) \<noteq> 0
   \<and> reverb_index (amp_60\<lparr>reverb_mix := 0.5\<rparr>) < reverb_buffer_size (amp_60\<lparr>reverb_mix := 0.5\<rparr>)
   \<and> length (reverb_buffer (amp_60\<lparr>reverb_mix := 0.5\<rparr>))
       = reverb_buffer_size (amp_60\<lparr>reverb_mix := 0.5\<rparr>)
   \<and> apply_reverb (amp_60\<lparr>reverb_mix := 0.5\<rparr>) [1, 0, 0, 0]
       = Inr (amp_60\<lparr>reverb_mix := 0.5, reverb_buffer := [0.3, 0, 0], reverb_index := 1\<rparr>,
              [0.5, 0, 0, 0.5])
   \<and> (\<exists>e' out. apply_reverb (amp_60\<lparr>reverb_mix := 0.5\<rparr>) [1, 0, 0, 0] = Inr (e', out)
         \<and> reverb_index e' < reverb_buffer_size e')"
proof -
  let ?e = "amp_60\<lparr>reverb_mix := 0.5\<rparr>" and ?B = "[1, 0, 0, 0 :: real]"
  have z: "reverb_mix amp_60 = 0" by (simp add: amp_60_def)
  with reverb_bypass_and_cursor [of amp_60 ?B]
  have b: "apply_reverb amp_60 ?B = Inr (amp_60, ?B)" by blast
  have h: "reverb_mix ?e \<noteq> 0" "reverb_index ?e < reverb_buffer_size ?e"
    "length (reverb_buffer ?e) = reverb_buffer_size ?e"
    by (simp_all add: amp_60_def)
  with reverb_bypass_and_cursor [of ?e ?B]
  have x: "\<exists>e' out. apply_reverb ?e ?B = Inr (e', out)
         \<and> reverb_index e' < reverb_buffer_size e'" by blast
  from z b h x reverb_example show ?thesis by blast
qed

subsection \<open>Reverb: impulse response\<close>

lemma mod_pred_iff:
  fixes N :: nat
  assumes "0 < N"
  shows "Suc j mod N = 0 \<longleftrightarrow> j mod N = N - 1"
  using assms by (auto simp: mod_Suc)

lemma mod_step_iff:
  fixes N :: nat
  assumes "0 < d" "d < N"
  shows "Suc j mod N = d \<longleftrightarrow> j mod N = d - 1"
  using assms by (auto simp: mod_Suc)

lemma div_step_wrap:
  fixes N :: nat
  assumes "0 < N" "j mod N = N - 1"
  shows "Suc j div N = Suc (j div N)"
  using assms by (simp add: div_Suc mod_Suc)

lemma div_step_same:
  fixes N :: nat
  assumes "0 < d" "Suc j mod N = d"
  shows "Suc j div N = j div N"
  using assms by (simp add: div_Suc)

lemma cursor_wrap_back:
  fixes N :: nat
  assumes "0 < N" "c < N"
  shows "((c + 1) mod N + (N - 1)) mod N = c"
proof -
  have "((c + 1) mod N + (N - 1)) mod N = ((c + 1) + (N - 1)) mod N"
    by (rule mod_add_left_eq)
  also have "(c + 1) + (N - 1) = c + N" using assms by simp
  also have "(c + N) mod N = c" using assms by simp
  finally show ?thesis .
qed

lemma cursor_step_back:
  fixes N :: nat
  assumes "0 < d"
  shows "((s + 1) mod N + (d - 1)) mod N = (s + d) mod N"
proof -
  have "((s + 1) mod N + (d - 1)) mod N = ((s + 1) + (d - 1)) mod N"
    by (rule mod_add_left_eq)
  also have "(s + 1) + (d - 1) = s + d" using assms by simp
  finally show ?thesis .
qed

lemma cursor_not_home:
  fixes N :: nat
  assumes "0 < d" "d < N" "c < N"
  shows "(c + d) mod N \<noteq> c"
proof (cases "c + d < N")
  case True
  with assms show ?thesis by simp
next
  case False
  then have "(c + d) mod N = c + d - N" using assms by (simp add: mod_if)
  with assms False show ?thesis by simp
qed

lemma replicate_update_same: "(replicate n x)[i := x] = replicate n x"
  by (induction n arbitrary: i) (auto split: nat.split)

lemma reverb_tail:
  assumes "reverb_loop e (replicate n 0) = Inr (e', out)"
    and "reverb_mix e = 1" and "reverb_buffer_size e = N"
    and "reverb_buffer e = (replicate N 0)[c := a]" and "c < N"
    and "reverb_index e < N" and "d < N" and "(reverb_index e + d) mod N = c"
  shows "\<forall>j<n. out ! j = (if j mod N = d then a * 0.3 ^ (j div N) else 0)"
  using assms
proof (induction n arbitrary: e out d a)
  case 0
  then show ?case by simp
next
  case (Suc n)
  let ?s = "reverb_index e"
  let ?delayed = "reverb_buffer e ! ?s"
  let ?e1 = "e\<lparr>reverb_buffer := (reverb_buffer e)[?s := 0 + ?delayed * 0.3],
               reverb_index := (?s + 1) mod reverb_buffer_size e\<rparr>"
  from Suc.prems have N: "0 < N" by simp
  from Suc.prems have len: "length (reverb_buffer e) = N" by simp
  from Suc.prems(1) len Suc.prems(3,6) N obtain ys where
    r: "reverb_loop ?e1 (replicate n 0) = Inr (e', ys)"
    and o: "out = (0 * (1 - reverb_mix e) + ?delayed * reverb_mix e) # ys"
    by (auto simp: Let_def and_then_eq_Inr)
  from o Suc.prems(2) have o': "out = ?delayed # ys" by simp
  have m1: "reverb_mix ?e1 = 1" using Suc.prems(2) by simp
  have sz: "reverb_buffer_size ?e1 = N" using Suc.prems(3) by simp
  have ix: "reverb_index ?e1 < N" using Suc.prems(3) N by simp
  show ?case
  proof (cases "d = 0")
    case True
    with Suc.prems(6,8) have sc: "?s = c" by simp
    with Suc.prems(4,5) have dl: "?delayed = a" by simp
    have b1: "reverb_buffer ?e1 = (replicate N 0)[c := a * 0.3]"
      using Suc.prems(4) sc dl by simp
    have d1: "N - 1 < N" using N by simp
    have c1: "(reverb_index ?e1 + (N - 1)) mod N = c"
      using Suc.prems(3,5) sc N cursor_wrap_back [of N c] by simp
    from Suc.IH [OF r m1 sz b1 Suc.prems(5) ix d1 c1]
    have ih: "\<forall>j<n. ys ! j = (if j mod N = N - 1 then a * 0.3 * 0.3 ^ (j div N) else 0)" .
    show ?thesis
    proof (intro allI impI)
      fix j assume j: "j < Suc n"
      show "out ! j = (if j mod N = d then a * 0.3 ^ (j div N) else 0)"
      proof (cases j)
        case 0
        with o' dl True show ?thesis by simp
      next
        case (Suc k)
        with j have k: "k < n" by simp
        with ih have "ys ! k = (if k mod N = N - 1 then a * 0.3 * 0.3 ^ (k div N) else 0)" by blast
        with o' Suc True N show ?thesis
          by (auto simp: mod_pred_iff div_step_wrap)
      qed
    qed
  next
    case False
    then have dpos: "0 < d" by simp
    have sc: "?s \<noteq> c"
    proof
      assume "?s = c"
      with Suc.prems(8) have "(c + d) mod N = c" by simp
      with Suc.prems(5,7) dpos cursor_not_home [of d N c] show False by simp
    qed
    with Suc.prems(4,6) have dl: "?delayed = 0" by simp
    have b1: "reverb_buffer ?e1 = (replicate N 0)[c := a]"
      using Suc.prems(4) sc dl
      by (simp add: list_update_swap [of c ?s] replicate_update_same)
    have d1: "d - 1 < N" using Suc.prems(7) by simp
    have c1: "(reverb_index ?e1 + (d - 1)) mod N = c"
      using Suc.prems(3,8) dpos cursor_step_back [of d ?s N] by simp
    from Suc.IH [OF r m1 sz b1 Suc.prems(5) ix d1 c1]
    have ih: "\<forall>j<n. ys ! j = (if j mod N = d - 1 then a * 0.3 ^ (j div N) else 0)" .
    show ?thesis
    proof (intro allI impI)
      fix j assume j: "j < Suc n"
      show "out ! j = (if j mod N = d then a * 0.3 ^ (j div N) else 0)"
      proof (cases j)
        case 0
        with o' dl False show ?thesis by simp
      next
        case (Suc k)
        with j have k: "k < n" by simp
        with ih have "ys ! k = (if k mod N = d - 1 then a * 0.3 ^ (k div N) else 0)" by blast
        with o' Suc dpos Suc.prems(7) show ?thesis
          by (auto simp: mod_step_iff div_step_same)
      qed
    qed
  qed
qed

lemma init_delay_line:
  assumes "init sr = Inr e" and "0 \<le> sr"
  shows "reverb_buffer_size e = nat \<lfloor>0.05 * real_of_int sr\<rfloor>
         \<and> reverb_buffer e = replicate (nat \<lfloor>0.05 * real_of_int sr\<rfloor>) 0
         \<and> reverb_index e = 0"
  using assms by (auto simp: init_def py_int_def Let_def split: if_splits)

lemma impulse_first_pass:
  assumes "reverb_mix e = 1" and "reverb_buffer e = replicate N 0"
    and "reverb_buffer_size e = N" and "reverb_index e < N"
  shows "\<exists>e' out. apply_reverb e (1 # replicate n 0) = Inr (e', out) \<and> length out = Suc n
           \<and> (\<forall>i\<le>n. out ! i = (if 0 < i \<and> N dvd i then 0.3 ^ (i div N - 1) else 0))"
proof -
  let ?s = "reverb_index e"
  let ?e1 = "e\<lparr>reverb_buffer := (reverb_buffer e)[?s := 1 + reverb_buffer e ! ?s * 0.3],
               reverb_index := (?s + 1) mod reverb_buffer_size e\<rparr>"
  from assms have N: "0 < N" by simp
  have ok: "delay_ok ?e1" using assms N by (simp add: delay_ok_def)
  from reverb_loop_returns [OF ok, of "replicate n 0"] obtain e' ys where
    r: "reverb_loop ?e1 (replicate n 0) = Inr (e', ys)" and l: "length ys = n"
    by auto
  have run: "apply_reverb e (1 # replicate n 0) = Inr (e', 0 # ys)"
    using assms N r by (simp add: apply_reverb_def Let_def)
  have b1: "reverb_buffer ?e1 = (replicate N 0)[?s := 1]" using assms by simp
  have c1: "(reverb_index ?e1 + (N - 1)) mod N = ?s"
    using assms N cursor_wrap_back [of N ?s] by simp
  have "\<forall>j<n. ys ! j = (if j mod N = N - 1 then 1 * 0.3 ^ (j div N) else 0)"
    by (rule reverb_tail [OF r _ _ b1 assms(4) _ _ c1]) (use assms N in simp_all)
  then have t: "\<And>j. j < n \<Longrightarrow> ys ! j = (if j mod N = N - 1 then 0.3 ^ (j div N) else 0)"
    by simp
  have "(0 # ys) ! i = (if 0 < i \<and> N dvd i then 0.3 ^ (i div N - 1) else 0)" if "i \<le> n" for i
  proof (cases i)
    case 0
    then show ?thesis by simp
  next
    case (Suc k)
    with that have k: "k < n" by simp
    have iff: "k mod N = N - 1 \<longleftrightarrow> N dvd Suc k"
      using mod_pred_iff [OF N, of k] by (simp add: dvd_eq_mod_eq_0)
    have "k mod N = N - 1 \<Longrightarrow> Suc k div N - 1 = k div N"
      using div_step_wrap [OF N, of k] by simp
    with Suc t [OF k] iff show ?thesis by auto
  qed
  with run l show ?thesis by simp
qed

text \<open>
  C4. The constructor leaves an all-zero delay buffer of \<open>\<lfloor>0.05 * sample_rate\<rfloor>\<close> samples
  (for a sample rate that is not negative). From an all-zero buffer of \<open>N \<ge> 1\<close> samples,
  with the cursor anywhere inside it and the mix at 1, a unit impulse followed by \<open>n\<close>
  zeros comes out as: zero everywhere but at the indices \<open>N, 2N, 3N, \<dots>\<close>, where sample
  \<open>k * N\<close> is \<open>0.3 ^ (k - 1)\<close>. The echoes are \<open>N\<close> samples apart, the first has
  amplitude 1, and each is 0.3 times the one before. (With \<open>N = 0\<close>, a sample rate below
  20, there is no slot to read and the call raises IndexError.)
\<close>

theorem reverb_impulse_response:
  "(\<forall>sr e0. init sr = Inr e0 \<and> 0 \<le> sr
       \<longrightarrow> reverb_buffer_size e0 = nat \<lfloor>0.05 * real_of_int sr\<rfloor>
           \<and> reverb_buffer e0 = replicate (nat \<lfloor>0.05 * real_of_int sr\<rfloor>) 0
           \<and> reverb_index e0 = 0)
   \<and> (reverb_mix e = 1 \<and> reverb_buffer e = replicate N 0 \<and> reverb_buffer_size e = N
        \<and> reverb_index e < N
      \<longrightarrow> (\<exists>e' out. apply_reverb e (1 # replicate n 0) = Inr (e', out) \<and> length out = Suc n
             \<and> (\<forall>i\<le>n. out ! i = (if 0 < i \<and> N dvd i then 0.3 ^ (i div N - 1) else 0))))"
proof (rule conjI)
  show "\<forall>sr e0. init sr = Inr e0 \<and> 0 \<le> sr
       \<longrightarrow> reverb_buffer_size e0 = nat \<lfloor>0.05 * real_of_int sr\<rfloor>
           \<and> reverb_buffer e0 = replicate (nat \<lfloor>0.05 * real_of_int sr\<rfloor>) 0
           \<and> reverb_index e0 = 0"
  proof (intro allI impI)
    fix sr e0
    assume a: "init sr = Inr e0 \<and> 0 \<le> sr"
    show "reverb_buffer_size e0 = nat \<lfloor>0.05 * real_of_int sr\<rfloor>
           \<and> reverb_buffer e0 = replicate (nat \<lfloor>0.05 * real_of_int sr\<rfloor>) 0
           \<and> reverb_index e0 = 0"
      by (rule init_delay_line) (use a in simp_all)
  qed
next
  show "reverb_mix e = 1 \<and> reverb_buffer e = replicate N 0 \<and> reverb_buffer_size e = N
        \<and> reverb_index e < N
      \<longrightarrow> (\<exists>e' out. apply_reverb e (1 # replicate n 0) = Inr (e', out) \<and> length out = Suc n
             \<and> (\<forall>i\<le>n. out ! i = (if 0 < i \<and> N dvd i then 0.3 ^ (i div N - 1) else 0)))"
  proof (rule impI)
    assume a: "reverb_mix e = 1 \<and> reverb_buffer e = replicate N 0 \<and> reverb_buffer_size e = N
        \<and> reverb_index e < N"
    show "\<exists>e' out. apply_reverb e (1 # replicate n 0) = Inr (e', out) \<and> length out = Suc n
             \<and> (\<forall>i\<le>n. out ! i = (if 0 < i \<and> N dvd i then 0.3 ^ (i div N - 1) else 0))"
      by (rule impulse_first_pass) (use a in simp_all)
  qed
qed

lemma impulse_example:
  "apply_reverb (amp_60\<lparr>reverb_mix := 1\<rparr>) [1, 0, 0, 0, 0, 0, 0]
     = Inr (amp_60\<lparr>reverb_mix := 1, reverb_buffer := [0.09, 0, 0], reverb_index := 1\<rparr>,
            [0, 0, 0, 1, 0, 0, 0.3])"
  by (simp add: apply_reverb_def amp_60_def Let_def)

theorem reverb_impulse_response_witness:
  "init 60 = Inr amp_60 \<and> (0::int) \<le> 60
   \<and> reverb_buffer_size amp_60 = nat \<lfloor>0.05 * real_of_int 60\<rfloor>
   \<and> reverb_mix (amp_60\<lparr>reverb_mix := 1\<rparr>) = 1
   \<and> reverb_buffer (amp_60\<lparr>reverb_mix := 1\<rparr>) = replicate 3 0
   \<and> reverb_buffer_size (amp_60\<lparr>reverb_mix := 1\<rparr>) = 3
   \<and> reverb_index (amp_60\<lparr>reverb_mix := 1\<rparr>) < 3
   \<and> (\<exists>e' out. apply_reverb (amp_60\<lparr>reverb_mix := 1\<rparr>) (1 # replicate 6 0) = Inr (e', out)
         \<and> length out = 7 \<and> out ! 1 = 0 \<and> out ! 3 = 1 \<and> out ! 6 = 0.3)"
proof -
  let ?e = "amp_60\<lparr>reverb_mix := 1\<rparr>"
  note h = reverb_impulse_response [of ?e 3 6]
  have i: "init 60 = Inr amp_60" "(0::int) \<le> 60" by (simp_all add: init_60)
  from h i have s: "reverb_buffer_size amp_60 = nat \<lfloor>0.05 * real_of_int 60\<rfloor>" by blast
  have p: "reverb_mix ?e = 1" "reverb_buffer ?e = replicate 3 0" "reverb_buffer_size ?e = 3"
    "reverb_index ?e < 3"
    by (simp_all add: amp_60_def numeral_3_eq_3)
  from h p obtain e' out where
    r: "apply_reverb ?e (1 # replicate 6 0) = Inr (e', out)" and l: "length out = Suc 6"
    and v: "\<forall>i\<le>6. out ! i = (if 0 < i \<and> (3::nat) dvd i then 0.3 ^ (i div 3 - 1) else 0)"
    by blast
  from v [THEN spec, of 1] have v1: "out ! 1 = 0" by simp
  from v [THEN spec, of 3] have v3: "out ! 3 = 1" by simp
  from v [THEN spec, of 6] have v6: "out ! 6 = 0.3" by simp
  from l have l': "length out = 7" by simp
  from i s p r l' v1 v3 v6 show ?thesis by blast
qed

text \<open>
  Below 20 Hz the buffer has no slot, and the first read of the reverb raises.
\<close>

lemma reverb_without_capacity:
  assumes "init 10 = Inr e"
  shows "apply_reverb (e\<lparr>reverb_mix := 1\<rparr>) [1] = Inl IndexError"
  using assms by (auto simp: init_def py_int_def apply_reverb_def)

subsection \<open>Tone control: the filters' delay memory\<close>


lemma length_sos_run: "length (fst (sos_run f xs)) = length xs"
proof (induction xs arbitrary: f)
  case Nil
  then show ?case by simp
next
  case (Cons x xs)
  obtain y f' where s: "sos_sample f x = (y, f')" by (cases "sos_sample f x")
  obtain ys f'' where r: "sos_run f' xs = (ys, f'')" by (cases "sos_run f' xs")
  from Cons.IH [of f'] r have "length ys = length xs" by simp
  with s r show ?case by simp
qed

lemma sosfilt_empty [simp]: "sosfilt sos [] = Inl ValueError"
  by (simp add: sosfilt_def)

lemma sosfilt_nonempty: "x \<noteq> [] \<Longrightarrow> sosfilt sos x = Inr (fst (sos_run (at_rest sos) x))"
  by (simp add: sosfilt_def)

lemma sosfilt_length: "sosfilt sos x = Inr y \<Longrightarrow> length y = length x"
  by (auto simp: sosfilt_def length_sos_run split: if_splits)

lemma biquad_rest: "biquad s (0, 0) 0 = (0, (0, 0))"
  by (cases s) simp

lemma sos_sample_rest: "sos_sample (at_rest sos) 0 = (0, at_rest sos)"
  by (induction sos) (simp_all add: at_rest_def biquad_rest)

lemma sos_run_silence: "sos_run (at_rest sos) (replicate n 0) = (replicate n 0, at_rest sos)"
  by (induction n) (simp_all add: sos_sample_rest)



lemma sosfilt_silence: "0 < n \<Longrightarrow> sosfilt sos (replicate n 0) = Inr (replicate n 0)"
  by (simp add: sosfilt_def sos_run_silence)







lemma length_vadd [simp]: "length (vadd xs ys) = min (length xs) (length ys)"
  by (simp add: vadd_def)

lemma length_vsub [simp]: "length (vsub xs ys) = min (length xs) (length ys)"
  by (simp add: vsub_def)





lemma bass_band_length:
  "bass_band butter e B R = Inr r \<Longrightarrow> length R = length B \<Longrightarrow> length r = length B"
  by (auto simp: bass_band_def and_then_eq_Inr split: if_splits dest!: sosfilt_length)

lemma treble_band_length:
  "treble_band butter e B R = Inr r \<Longrightarrow> length R = length B \<Longrightarrow> length r = length B"
  by (auto simp: treble_band_def and_then_eq_Inr split: if_splits dest!: sosfilt_length)

lemma mid_band_length:
  "mid_band butter e B R = Inr r \<Longrightarrow> length R = length B \<Longrightarrow> length r = length B"
  by (auto simp: mid_band_def and_then_eq_Inr split: if_splits dest!: sosfilt_length)

lemma apply_eq_length: "apply_eq butter e B = Inr r \<Longrightarrow> length r = length B"
  by (auto simp: apply_eq_def and_then_eq_Inr
      dest!: bass_band_length treble_band_length mid_band_length)


lemma bass_band_Inl_iff:
  "B \<noteq> [] \<Longrightarrow>
   bass_band butter e B R = Inl err
     \<longleftrightarrow> bass e \<noteq> 0 \<and> butter 2 [100] Low (sample_rate e) = Inl err"
  by (cases "butter 2 [100] Low (sample_rate e)") (simp_all add: bass_band_def sosfilt_nonempty)

lemma treble_band_Inl_iff:
  "B \<noteq> [] \<Longrightarrow>
   treble_band butter e B R = Inl err
     \<longleftrightarrow> treble e \<noteq> 0 \<and> butter 2 [3000] High (sample_rate e) = Inl err"
  by (cases "butter 2 [3000] High (sample_rate e)")
    (simp_all add: treble_band_def sosfilt_nonempty)

lemma mid_band_Inl_iff:
  "B \<noteq> [] \<Longrightarrow>
   mid_band butter e B R = Inl err
     \<longleftrightarrow> mid e \<noteq> 0 \<and> butter 2 [400, 1600] Band (sample_rate e) = Inl err"
  by (cases "butter 2 [400, 1600] Band (sample_rate e)")
    (simp_all add: mid_band_def sosfilt_nonempty)








lemma apply_eq_empty_block:
  assumes "bass e \<noteq> 0" and "butter 2 [100] Low (sample_rate e) = Inr sos"
  shows "apply_eq butter e [] = Inl ValueError"
  using assms by (simp add: apply_eq_def bass_band_def)








subsection \<open>The chain\<close>

text \<open>
  C7. \<^verbatim>\<open>process\<close> is the fixed composition of the four stages: the block goes through
  gain, then distortion, then the tone control, then the reverb, each stage applied to the
  result of the one before; an exception of the tone control ends the call. Every stage is
  applied whatever the parameters are.
\<close>

theorem process_pipeline:
  "process butter e B
     = and_then (apply_eq butter e (apply_distortion e (apply_gain e B))) (apply_reverb e)"
  by (simp add: process_def Let_def)

text \<open>
  The chain keeps the length of the block: on an engine whose delay line is in order, and
  with a filter design that answers the three requests of the tone control, \<^verbatim>\<open>process\<close>
  returns, for a block that is not empty, a block as long as its input and leaves the delay
  line in order.
\<close>

lemma apply_eq_returns:
  assumes "butter 2 [100] Low (sample_rate e) = Inr s1"
    and "butter 2 [3000] High (sample_rate e) = Inr s2"
    and "butter 2 [400, 1600] Band (sample_rate e) = Inr s3"
    and B: "B \<noteq> []"
  shows "\<exists>r. apply_eq butter e B = Inr r \<and> length r = length B"
proof (cases "apply_eq butter e B")
  case (Inl err)
  have "apply_eq butter e B \<noteq> Inl err"
  proof (cases "bass_band butter e B B")
    case (Inl x)
    with assms(1) show ?thesis by (simp add: bass_band_Inl_iff [OF B])
  next
    case b: (Inr r1)
    show ?thesis
    proof (cases "treble_band butter e B r1")
      case (Inl x)
      with assms(2) show ?thesis by (simp add: treble_band_Inl_iff [OF B])
    next
      case t: (Inr r2)
      show ?thesis
      proof (cases "mid_band butter e B r2")
        case (Inl x)
        with assms(3) show ?thesis by (simp add: mid_band_Inl_iff [OF B])
      next
        case (Inr r3)
        with b t show ?thesis by (simp add: apply_eq_def)
      qed
    qed
  qed
  with Inl show ?thesis by simp
next
  case (Inr r)
  then show ?thesis using apply_eq_length by blast
qed

lemma process_returns_same_length:
  assumes "delay_ok e"
    and "butter 2 [100] Low (sample_rate e) = Inr s1"
    and "butter 2 [3000] High (sample_rate e) = Inr s2"
    and "butter 2 [400, 1600] Band (sample_rate e) = Inr s3"
    and "B \<noteq> []"
  shows "\<exists>e' out. process butter e B = Inr (e', out) \<and> length out = length B \<and> delay_ok e'"
proof -
  from assms(5) have "apply_distortion e (apply_gain e B) \<noteq> []"
    by (metis length_apply_distortion length_apply_gain length_0_conv)
  with apply_eq_returns [of butter e s1 s2 s3 "apply_distortion e (apply_gain e B)"] assms(2-4)
  obtain t where t: "apply_eq butter e (apply_distortion e (apply_gain e B)) = Inr t"
    and l: "length t = length B" by auto
  show ?thesis
  proof (cases "reverb_mix e = 0")
    case True
    with t l assms(1) show ?thesis by (simp add: process_def apply_reverb_def)
  next
    case False
    from reverb_loop_returns [OF assms(1), of t] obtain e' ys where
      "reverb_loop e t = Inr (e', ys)" "delay_ok e'" "length ys = length t" by blast
    with False t l show ?thesis by (simp add: process_def apply_reverb_def)
  qed
qed

subsection \<open>The chain: determinism and dependence on the delay line\<close>













end
